theory Spec2Isabelle
  imports Main "HOL-Library.Sublist" "HOL-Library.Stream"
begin

section \<open>The ConfigurePackage orchestrator (configurepackage\_execute.go)\<close>

text \<open>
  The file holds three mutually dependent procedures: \<open>executeConfigurePackage\<close> (the
  entry dispatcher), \<open>executeInstall\<close> and \<open>executeUninstall\<close>, and the two helpers
  \<open>setNewInstallState\<close> and \<open>cleanupAfterUninstall\<close>. None of them returns a value:
  all they do is call their collaborators (the repository, the installers, the tracer and
  the plugin output). A run is therefore modelled by the list of collaborator calls it
  makes, in program order; what the collaborators give back is an input of the run.
\<close>

subsection \<open>Data\<close>

text \<open>
  Modelled from the spec: the enumeration \<open>localpackages.InstallState\<close> is declared
  outside the file; section 3 of the specification lists its nine values. \<open>None\<close> is
  written \<open>None_state\<close>.
\<close>

datatype InstallState =
    None_state | Installing | Installed | Updating | Uninstalling | Upgrading
  | RollbackInstall | RollbackUninstall | Failed

text \<open>
  Modelled from the spec: \<open>contracts.ResultStatus\<close> with its methods \<open>IsSuccess\<close> and
  \<open>IsReboot\<close> is declared outside the file. Section 6 gives the status of a result as
  one of success, failed and reboot-pending, and section 7 says that reboot-pending is
  not an error (the operation has succeeded so far): a reboot-pending status is
  \<open>IsSuccess\<close> as well as \<open>IsReboot\<close>. The source agrees: \<open>executeUninstall\<close>
  tests \<open>IsReboot\<close> (line 190) only after it has dealt with the results that are not
  \<open>IsSuccess\<close> (line 179). The source names the constant \<open>ResultStatusSuccess\<close>
  (line 101).
\<close>

datatype ResultStatus =
    ResultStatusSuccess | ResultStatusSuccessAndReboot | ResultStatusFailed

definition IsSuccess :: "ResultStatus \<Rightarrow> bool" where
  "IsSuccess s = (s = ResultStatusSuccess \<or> s = ResultStatusSuccessAndReboot)"

definition IsReboot :: "ResultStatus \<Rightarrow> bool" where
  "IsReboot s = (s = ResultStatusSuccessAndReboot)"

text \<open>
  An installer handle is known to the orchestrator by \<open>PackageName()\<close> and
  \<open>Version()\<close>. A parameter of type \<open>installer.Installer\<close> is a Go interface value and
  may be \<open>nil\<close>: it is an \<open>Installer option\<close>, and a method call on \<open>nil\<close> panics.
\<close>

record Installer =
  PackageName :: string
  Version :: string

text \<open>The result of an action, a \<open>contracts.PluginOutputter\<close> read through its getters.\<close>

record PluginOutput =
  Status :: ResultStatus
  ExitCode :: int
  Stderr :: string

text \<open>
  What one action invocation gives back to the orchestrator: its own \<open>result\<close>, and
  \<open>outputStderr\<close>, the text that \<open>output.GetStderr()\<close> returns once the invocation is
  over (\<open>output\<close> is the plugin output of the whole run, a different object from the
  result). The orchestrator itself never writes to the standard error of \<open>output\<close>; the
  collaborators may. A run receives the stream of what its successive invocations will
  give back.
\<close>

record returned =
  result :: PluginOutput
  outputStderr :: string

datatype Action = Install | Update | Uninstall | Validate

text \<open>The labels of the trace sections the file opens, with the values formatted into them.\<close>

datatype trace_section =
    ExecuteConfigureSection InstallState
  | SetInstallStateSection string string InstallState
  | InstallSection string string bool bool
  | ValidateSection string string bool
  | RebootInstallSection string string bool
  | UninstallSection string string bool
  | RebootUninstallSection string string bool
  | CleanupSection string string

text \<open>
  The collaborator calls. \<open>BeginSection\<close> is the tracer; the annotations of an open
  section (\<open>WithError\<close>, \<open>WithExitcode\<close>, \<open>AppendInfof\<close>, \<open>AppendErrorf\<close>, \<open>End\<close>)
  touch neither the repository nor the installers nor the output and are left out,
  and with them the error value of \<open>SetInstallState\<close> and \<open>RemovePackage\<close>, which is
  only ever attached to the section. \<open>Panic\<close> is the run-time panic of a method call on
  a \<open>nil\<close> installer; it ends the run.
\<close>

datatype event =
    BeginSection trace_section
  | SetInstallState string string InstallState
  | RemovePackage string string
  | Invoke Action Installer
  | MarkAsSucceeded
  | MarkAsSuccessWithReboot
  | MarkAsFailed
  | Panic

subsection \<open>The procedures\<close>

text \<open>\<open>strings.Contains s substr\<close>.\<close>

fun Contains :: "string \<Rightarrow> string \<Rightarrow> bool" where
  "Contains [] substr = (substr = [])"
| "Contains (c # s) substr = (prefix substr (c # s) \<or> Contains s substr)"

text \<open>Lines 62-70. Every call site has dereferenced the handle before.\<close>

definition setNewInstallState :: "Installer \<Rightarrow> InstallState \<Rightarrow> event list" where
  "setNewInstallState inst newInstallState =
     [BeginSection (SetInstallStateSection (PackageName inst) (Version inst) newInstallState),
      SetInstallState (PackageName inst) (Version inst) newInstallState]"

text \<open>Lines 207-215.\<close>

definition cleanupAfterUninstall :: "Installer \<Rightarrow> event list" where
  "cleanupAfterUninstall uninst =
     [BeginSection (CleanupSection (PackageName uninst) (Version uninst)),
      RemovePackage (PackageName uninst) (Version uninst)]"

text \<open>
  Lines 99-105 of \<open>executeInstall\<close>: \<open>validated rs\<close> says that the install or update
  action returned exactly \<open>ResultStatusSuccess\<close>, so that \<open>Validate\<close> runs and its
  result replaces the action's; \<open>installOutcome rs\<close> is the value of the variable
  \<open>result\<close> from line 106 on, and \<open>installRest rs\<close> what is left for later invocations.
\<close>

definition validated :: "returned stream \<Rightarrow> bool" where
  "validated rs = (Status (result (shd rs)) = ResultStatusSuccess)"

definition installOutcome :: "returned stream \<Rightarrow> returned" where
  "installOutcome rs = (if validated rs then shd (stl rs) else shd rs)"

definition installRest :: "returned stream \<Rightarrow> returned stream" where
  "installRest rs = (if validated rs then stl (stl rs) else stl rs)"

text \<open>
  \<open>executeInstall\<close> (lines 73-148) and \<open>executeUninstall\<close> (lines 151-204). The
  parameters are those of the source without the collaborators: \<open>inst\<close>, \<open>uninst\<close>,
  \<open>isUpdateInPlace\<close>, \<open>isRollback\<close>, and the stream of what the invocations give back.
  Line 83 calls \<open>inst.PackageName()\<close> and line 161 \<open>uninst.PackageName()\<close> before anything
  else; line 139 calls \<open>uninst.PackageName()\<close> without a test for \<open>nil\<close>.
\<close>

function (sequential)
  executeInstall :: "Installer option \<Rightarrow> Installer option \<Rightarrow> bool \<Rightarrow> bool \<Rightarrow>
    returned stream \<Rightarrow> event list"
and
  executeUninstall :: "Installer option \<Rightarrow> Installer option \<Rightarrow> bool \<Rightarrow> bool \<Rightarrow>
    returned stream \<Rightarrow> event list"
where
  "executeInstall None uninst isUpdateInPlace isRollback rs = [Panic]"
| "executeInstall (Some i) uninst isUpdateInPlace isRollback rs =
     BeginSection (InstallSection (PackageName i) (Version i) isRollback isUpdateInPlace) #
     (if isRollback then setNewInstallState i RollbackInstall @ [Invoke Install i]
      else if isUpdateInPlace then setNewInstallState i Updating @ [Invoke Update i]
      else setNewInstallState i Installing @ [Invoke Install i]) @
     (if validated rs
      then [BeginSection (ValidateSection (PackageName i) (Version i) isRollback),
            Invoke Validate i]
      else []) @
     (if IsReboot (Status (result (installOutcome rs)))
      then [BeginSection (RebootInstallSection (PackageName i) (Version i) isRollback),
            MarkAsSuccessWithReboot]
      else if \<not> IsSuccess (Status (result (installOutcome rs)))
      then
        (if isUpdateInPlace \<and>
            Contains (outputStderr (installOutcome rs)) ''missing update script''
         then setNewInstallState i Installed @ [MarkAsFailed]
         else if isRollback \<or> uninst = None
         then MarkAsFailed # setNewInstallState i Failed
         else executeUninstall uninst (Some i) isUpdateInPlace True (installRest rs))
      else
        (case uninst of None \<Rightarrow> [] | Some u \<Rightarrow> cleanupAfterUninstall u) @
        (if isRollback
         then (case uninst of
                 None \<Rightarrow> [Panic]
               | Some u \<Rightarrow> setNewInstallState i Installed @ [MarkAsFailed])
         else setNewInstallState i Installed @ [MarkAsSucceeded]))"
| "executeUninstall inst None isUpdateInPlace isRollback rs = [Panic]"
| "executeUninstall inst (Some u) isUpdateInPlace isRollback rs =
     BeginSection (UninstallSection (PackageName u) (Version u) isRollback) #
     (if isRollback then setNewInstallState u RollbackUninstall
      else if inst \<noteq> None then setNewInstallState u Upgrading
      else setNewInstallState u Uninstalling) @
     Invoke Uninstall u #
     (if \<not> IsSuccess (Status (result (shd rs)))
      then
        (if inst \<noteq> None
         then executeInstall inst (Some u) isUpdateInPlace isRollback (stl rs)
         else setNewInstallState u Failed @ [MarkAsFailed])
      else if IsReboot (Status (result (shd rs)))
      then [BeginSection (RebootUninstallSection (PackageName u) (Version u) isRollback),
            MarkAsSuccessWithReboot]
      else if inst \<noteq> None
      then executeInstall inst (Some u) isUpdateInPlace isRollback (stl rs)
      else cleanupAfterUninstall u @ setNewInstallState u None_state @ [MarkAsSucceeded])"
  by pat_completeness auto

text \<open>
  The recursion is bounded: an install that is not a rollback may start the rollback
  uninstall, an uninstall hands its own rollback flag to the install it continues with,
  and a rollback install calls nothing.
\<close>

termination
  by (relation "measure (\<lambda>x. case x of
        Inl (inst, uninst, ip, rb, rs) \<Rightarrow> (if rb then 0 else 2)
      | Inr (inst, uninst, ip, rb, rs) \<Rightarrow> (if rb then 1 else 3))") auto

text \<open>\<open>executeConfigurePackage\<close>, lines 31-59.\<close>

definition executeConfigurePackage :: "Installer option \<Rightarrow> Installer option \<Rightarrow> bool \<Rightarrow>
    InstallState \<Rightarrow> returned stream \<Rightarrow> event list" where
  "executeConfigurePackage inst uninst isUpdateInPlace initialInstallState rs =
     BeginSection (ExecuteConfigureSection initialInstallState) #
     (if initialInstallState = Installing \<or> initialInstallState = Updating
      then executeInstall inst uninst isUpdateInPlace False rs
      else if initialInstallState = RollbackInstall
      then executeInstall uninst inst isUpdateInPlace True rs
      else if initialInstallState = RollbackUninstall
      then executeUninstall uninst inst isUpdateInPlace True rs
      else if uninst \<noteq> None \<and> \<not> isUpdateInPlace
      then executeUninstall inst uninst isUpdateInPlace False rs
      else executeInstall inst uninst isUpdateInPlace False rs)"

subsection \<open>Reading a run\<close>

text \<open>The calls of a run on the outcome reporter, in order.\<close>

fun isReport :: "event \<Rightarrow> bool" where
  "isReport MarkAsSucceeded = True"
| "isReport MarkAsSuccessWithReboot = True"
| "isReport MarkAsFailed = True"
| "isReport e = False"

definition reports :: "event list \<Rightarrow> event list" where
  "reports evs = filter isReport evs"

text \<open>The states a run writes to the repository, in order, each with name and version.\<close>

fun written :: "event \<Rightarrow> (string \<times> string \<times> InstallState) list" where
  "written (SetInstallState n v s) = [(n, v, s)]"
| "written e = []"

definition stateWrites :: "event list \<Rightarrow> (string \<times> string \<times> InstallState) list" where
  "stateWrites evs = concat (map written evs)"

definition lastWrite :: "event list \<Rightarrow> (string \<times> string \<times> InstallState) option" where
  "lastWrite evs = (if stateWrites evs = [] then None else Some (last (stateWrites evs)))"

definition lastState :: "event list \<Rightarrow> InstallState option" where
  "lastState evs = map_option (\<lambda>w. snd (snd w)) (lastWrite evs)"

text \<open>The part of a run that comes before its first call on the outcome reporter.\<close>

definition beforeReport :: "event list \<Rightarrow> event list" where
  "beforeReport evs = takeWhile (\<lambda>e. \<not> isReport e) evs"

text \<open>The packages a run asks the repository to remove, and the actions it invokes.\<close>

fun removal :: "event \<Rightarrow> (string \<times> string) list" where
  "removal (RemovePackage n v) = [(n, v)]"
| "removal e = []"

definition removed :: "event list \<Rightarrow> (string \<times> string) list" where
  "removed evs = concat (map removal evs)"

fun invocation :: "event \<Rightarrow> (Action \<times> Installer) list" where
  "invocation (Invoke a i) = [(a, i)]"
| "invocation e = []"

definition invocations :: "event list \<Rightarrow> (Action \<times> Installer) list" where
  "invocations evs = concat (map invocation evs)"

text \<open>
  The sub-procedures a run enters, read from the sections they open at lines 83 and 161,
  each with the rollback flag it was entered with.
\<close>

datatype subprocedure = InstallPath | UninstallPath

fun entered :: "event \<Rightarrow> (subprocedure \<times> bool) list" where
  "entered (BeginSection (InstallSection n v rb ip)) = [(InstallPath, rb)]"
| "entered (BeginSection (UninstallSection n v rb)) = [(UninstallPath, rb)]"
| "entered e = []"

definition callChain :: "event list \<Rightarrow> (subprocedure \<times> bool) list" where
  "callChain evs = concat (map entered evs)"

subsection \<open>Calls of the two sub-procedures\<close>

text \<open>
  A call of \<open>executeInstall\<close> or of \<open>executeUninstall\<close> with its arguments
  \<open>inst\<close>, \<open>uninst\<close>, \<open>isUpdateInPlace\<close>, \<open>isRollback\<close>.
\<close>

datatype call =
    InstallCall "Installer option" "Installer option" bool bool
  | UninstallCall "Installer option" "Installer option" bool bool

fun runCall :: "call \<Rightarrow> returned stream \<Rightarrow> event list" where
  "runCall (InstallCall inst uninst ip rb) rs = executeInstall inst uninst ip rb rs"
| "runCall (UninstallCall inst uninst ip rb) rs = executeUninstall inst uninst ip rb rs"

text \<open>The call the switch of \<open>executeConfigurePackage\<close> makes (lines 44-58).\<close>

definition selectedCall :: "Installer option \<Rightarrow> Installer option \<Rightarrow> bool \<Rightarrow>
    InstallState \<Rightarrow> call" where
  "selectedCall inst uninst isUpdateInPlace initialInstallState =
     (if initialInstallState = Installing \<or> initialInstallState = Updating
      then InstallCall inst uninst isUpdateInPlace False
      else if initialInstallState = RollbackInstall
      then InstallCall uninst inst isUpdateInPlace True
      else if initialInstallState = RollbackUninstall
      then UninstallCall uninst inst isUpdateInPlace True
      else if uninst \<noteq> None \<and> \<not> isUpdateInPlace
      then UninstallCall inst uninst isUpdateInPlace False
      else InstallCall inst uninst isUpdateInPlace False)"

text \<open>
  The state a call persists before its action: lines 88-97 of \<open>executeInstall\<close> and
  lines 164-174 of \<open>executeUninstall\<close>.
\<close>

fun markerOf :: "call \<Rightarrow> InstallState" where
  "markerOf (InstallCall inst uninst ip rb) =
     (if rb then RollbackInstall else if ip then Updating else Installing)"
| "markerOf (UninstallCall inst uninst ip rb) =
     (if rb then RollbackUninstall else if inst \<noteq> None then Upgrading else Uninstalling)"

text \<open>
  The call a sub-procedure goes on with, and the results left for it: line 131 of
  \<open>executeInstall\<close>, lines 183 and 198 of \<open>executeUninstall\<close>. \<open>None\<close> when the call
  returns (or panics) without calling the other sub-procedure.
\<close>

fun nextCall :: "call \<Rightarrow> returned stream \<Rightarrow> (call \<times> returned stream) option" where
  "nextCall (InstallCall None uninst ip rb) rs = None"
| "nextCall (InstallCall (Some i) uninst ip rb) rs =
     (if IsReboot (Status (result (installOutcome rs))) then None
      else if \<not> IsSuccess (Status (result (installOutcome rs)))
      then
        (if ip \<and> Contains (outputStderr (installOutcome rs)) ''missing update script''
         then None
         else if rb \<or> uninst = None then None
         else Some (UninstallCall uninst (Some i) ip True, installRest rs))
      else None)"
| "nextCall (UninstallCall inst None ip rb) rs = None"
| "nextCall (UninstallCall inst (Some u) ip rb) rs =
     (if \<not> IsSuccess (Status (result (shd rs)))
      then (if inst \<noteq> None then Some (InstallCall inst (Some u) ip rb, stl rs) else None)
      else if IsReboot (Status (result (shd rs))) then None
      else if inst \<noteq> None then Some (InstallCall inst (Some u) ip rb, stl rs)
      else None)"

fun rank :: "call \<Rightarrow> nat" where
  "rank (InstallCall inst uninst ip rb) = (if rb then 0 else 2)"
| "rank (UninstallCall inst uninst ip rb) = (if rb then 1 else 3)"

lemma nextCall_rank: "nextCall c rs = Some (c', rs') \<Longrightarrow> rank c' < rank c"
  by (induction c rs rule: nextCall.induct) (auto split: if_splits)

text \<open>The calls of a run that starts with the call \<open>c\<close>, each with the results left to it.\<close>

function callTrace :: "call \<Rightarrow> returned stream \<Rightarrow> (call \<times> returned stream) list" where
  "callTrace c rs =
     (c, rs) # (case nextCall c rs of None \<Rightarrow> [] | Some (c', rs') \<Rightarrow> callTrace c' rs')"
  by pat_completeness auto

termination
  by (relation "measure (\<lambda>(c, rs). rank c)") (auto simp: nextCall_rank)

text \<open>
  The events of a call itself, in two parts. \<open>callStart\<close> runs up to the result the
  call decides on: the section, the state persisted, the action, and for an install the
  validation (lines 83-105 and 161-177). \<open>callEnd\<close> is how the call finishes when it
  does not go on with the other sub-procedure (lines 106-120, 123-129, 134-147 and
  186-194, 201-203). Lemma \<open>runCall_unfold\<close> below shows that these, with \<open>nextCall\<close>
  and \<open>markerOf\<close>, describe \<open>executeInstall\<close> and \<open>executeUninstall\<close> exactly.
\<close>

fun callStart :: "call \<Rightarrow> returned stream \<Rightarrow> event list" where
  "callStart (InstallCall None uninst ip rb) rs = []"
| "callStart (InstallCall (Some i) uninst ip rb) rs =
     BeginSection (InstallSection (PackageName i) (Version i) rb ip) #
     setNewInstallState i (markerOf (InstallCall (Some i) uninst ip rb)) @
     [Invoke (if rb then Install else if ip then Update else Install) i] @
     (if validated rs
      then [BeginSection (ValidateSection (PackageName i) (Version i) rb), Invoke Validate i]
      else [])"
| "callStart (UninstallCall inst None ip rb) rs = []"
| "callStart (UninstallCall inst (Some u) ip rb) rs =
     BeginSection (UninstallSection (PackageName u) (Version u) rb) #
     setNewInstallState u (markerOf (UninstallCall inst (Some u) ip rb)) @
     [Invoke Uninstall u]"

fun callEnd :: "call \<Rightarrow> returned stream \<Rightarrow> event list" where
  "callEnd (InstallCall None uninst ip rb) rs = [Panic]"
| "callEnd (InstallCall (Some i) uninst ip rb) rs =
     (if IsReboot (Status (result (installOutcome rs)))
      then [BeginSection (RebootInstallSection (PackageName i) (Version i) rb),
            MarkAsSuccessWithReboot]
      else if \<not> IsSuccess (Status (result (installOutcome rs)))
      then
        (if ip \<and> Contains (outputStderr (installOutcome rs)) ''missing update script''
         then setNewInstallState i Installed @ [MarkAsFailed]
         else MarkAsFailed # setNewInstallState i Failed)
      else
        (case uninst of None \<Rightarrow> [] | Some u \<Rightarrow> cleanupAfterUninstall u) @
        (if rb \<and> uninst = None then [Panic]
         else setNewInstallState i Installed @ [if rb then MarkAsFailed else MarkAsSucceeded]))"
| "callEnd (UninstallCall inst None ip rb) rs = [Panic]"
| "callEnd (UninstallCall inst (Some u) ip rb) rs =
     (if \<not> IsSuccess (Status (result (shd rs)))
      then setNewInstallState u Failed @ [MarkAsFailed]
      else if IsReboot (Status (result (shd rs)))
      then [BeginSection (RebootUninstallSection (PackageName u) (Version u) rb),
            MarkAsSuccessWithReboot]
      else cleanupAfterUninstall u @ setNewInstallState u None_state @ [MarkAsSucceeded])"

declare callTrace.simps [simp del]

text \<open>
  The calls a top-level run with the handles \<open>inst\<close> and \<open>uninst\<close> and the in-place
  flag \<open>ip\<close> can make: the install of the target, its rollback (the uninstall of the
  target, then the install of the counterpart), and the legacy uninstall of the
  counterpart, which the switch only selects with a counterpart and not in place.
\<close>

definition resumable :: "Installer option \<Rightarrow> Installer option \<Rightarrow> bool \<Rightarrow> call \<Rightarrow> bool" where
  "resumable inst uninst ip c =
     (c = InstallCall inst uninst ip False \<or>
      c = UninstallCall uninst inst ip True \<or>
      c = InstallCall uninst inst ip True \<or>
      (c = UninstallCall inst uninst ip False \<and> uninst \<noteq> None \<and> \<not> ip))"

text \<open>
  The test of line 116 on what an invocation gives back, and the in-place flag of a call.
  Two streams agree for a run with the flag \<open>ip\<close> when they hold the same results and,
  with the flag set, give the same answer to the test of line 116.
\<close>

definition missingUpdateScript :: "returned \<Rightarrow> bool" where
  "missingUpdateScript r = Contains (outputStderr r) ''missing update script''"

fun inPlaceOf :: "call \<Rightarrow> bool" where
  "inPlaceOf (InstallCall inst uninst ip rb) = ip"
| "inPlaceOf (UninstallCall inst uninst ip rb) = ip"

definition agree :: "bool \<Rightarrow> returned stream \<Rightarrow> returned stream \<Rightarrow> bool" where
  "agree ip rs rs' =
     (smap result rs = smap result rs' \<and>
      (ip \<longrightarrow> smap missingUpdateScript rs = smap missingUpdateScript rs'))"

text \<open>
  A call has the handles it dereferences: \<open>executeInstall\<close> its \<open>inst\<close> (line 83) and,
  as a rollback, its \<open>uninst\<close> (line 139); \<open>executeUninstall\<close> its \<open>uninst\<close> (line 161).
\<close>

fun handlesGiven :: "call \<Rightarrow> bool" where
  "handlesGiven (InstallCall inst uninst ip rb) = (inst \<noteq> None \<and> (rb \<longrightarrow> uninst \<noteq> None))"
| "handlesGiven (UninstallCall inst uninst ip rb) = (uninst \<noteq> None)"

text \<open>
  The longest chain of sub-procedures that can follow a call, and the greatest number
  of collaborator calls a call can make, both read off the rollback flag.
\<close>

fun chainFrom :: "call \<Rightarrow> (subprocedure \<times> bool) list" where
  "chainFrom (InstallCall inst uninst ip rb) =
     (if rb then [(InstallPath, True)]
      else [(InstallPath, False), (UninstallPath, True), (InstallPath, True)])"
| "chainFrom (UninstallCall inst uninst ip rb) =
     (if rb then [(UninstallPath, True), (InstallPath, True)]
      else [(UninstallPath, False), (InstallPath, False), (UninstallPath, True),
            (InstallPath, True)])"

fun startBound :: "call \<Rightarrow> nat" where
  "startBound (InstallCall inst uninst ip rb) = 6"
| "startBound (UninstallCall inst uninst ip rb) = 4"

fun lengthBound :: "call \<Rightarrow> nat" where
  "lengthBound (InstallCall inst uninst ip rb) = (if rb then 11 else 21)"
| "lengthBound (UninstallCall inst uninst ip rb) = (if rb then 15 else 25)"

subsection \<open>The dispatch table as the specification words it\<close>

text \<open>
  Sections 4.2 and 4.3 of the specification name the two handles of a sub-procedure by
  role. The install sub-procedure installs its target, and its counterpart is the other
  version: these are the parameters \<open>inst\<close> and \<open>uninst\<close> of \<open>executeInstall\<close>. For the
  uninstall sub-procedure the target is the version being removed and the counterpart
  the version to reinstall afterwards: \<open>executeUninstall\<close> invokes \<open>Uninstall\<close> on its
  parameter \<open>uninst\<close> (line 176) and goes on with \<open>executeInstall\<close> on its parameter
  \<open>inst\<close> (lines 183, 198).
\<close>

definition installPath :: "Installer option \<Rightarrow> Installer option \<Rightarrow> bool \<Rightarrow> bool \<Rightarrow>
    returned stream \<Rightarrow> event list" where
  "installPath target counterpart isUpdateInPlace isRollback rs =
     executeInstall target counterpart isUpdateInPlace isRollback rs"

definition uninstallPath :: "Installer option \<Rightarrow> Installer option \<Rightarrow> bool \<Rightarrow> bool \<Rightarrow>
    returned stream \<Rightarrow> event list" where
  "uninstallPath beingRemoved toReinstall isUpdateInPlace isRollback rs =
     executeUninstall toReinstall beingRemoved isUpdateInPlace isRollback rs"

text \<open>
  The decision table in the words of the claim: from \<open>RollbackUninstall\<close> the version
  being removed is the counterpart and the version to reinstall the target; from any
  other state than the four named ones, with a counterpart and not in place, the old
  version (the counterpart) is uninstalled and the new one (the target) installed.
\<close>

definition claimedDispatch :: "Installer option \<Rightarrow> Installer option \<Rightarrow> bool \<Rightarrow>
    InstallState \<Rightarrow> returned stream \<Rightarrow> event list" where
  "claimedDispatch target counterpart isUpdateInPlace persisted rs =
     (if persisted = Installing \<or> persisted = Updating
      then installPath target counterpart isUpdateInPlace False rs
      else if persisted = RollbackInstall
      then installPath counterpart target isUpdateInPlace True rs
      else if persisted = RollbackUninstall
      then uninstallPath counterpart target isUpdateInPlace True rs
      else if counterpart \<noteq> None \<and> \<not> isUpdateInPlace
      then uninstallPath counterpart target isUpdateInPlace False rs
      else installPath target counterpart isUpdateInPlace False rs)"

subsection \<open>Concrete packages and results\<close>

abbreviation pkg :: "string \<Rightarrow> string \<Rightarrow> Installer" where
  "pkg n v \<equiv> \<lparr>PackageName = n, Version = v\<rparr>"

abbreviation gives :: "ResultStatus \<Rightarrow> int \<Rightarrow> string \<Rightarrow> string \<Rightarrow> returned" where
  "gives s code err acc \<equiv>
     \<lparr>result = \<lparr>Status = s, ExitCode = code, Stderr = err\<rparr>, outputStderr = acc\<rparr>"

section \<open>Properties\<close>

subsection \<open>Tools\<close>

lemmas run_simps =
  executeConfigurePackage_def setNewInstallState_def cleanupAfterUninstall_def
  validated_def installOutcome_def installRest_def IsSuccess_def IsReboot_def

lemmas read_simps =
  reports_def stateWrites_def lastWrite_def lastState_def
  removed_def invocations_def callChain_def

lemma Contains_sublist: "Contains s substr = sublist substr s"
  by (induction s) (auto simp: sublist_Cons_right)

lemma runCall_unfold:
  "runCall c rs = callStart c rs @
     (case nextCall c rs of None \<Rightarrow> callEnd c rs | Some (c', rs') \<Rightarrow> runCall c' rs')"
proof (cases c)
  case (InstallCall inst uninst ip rb)
  show ?thesis
  proof (cases inst)
    case None
    with InstallCall show ?thesis by simp
  next
    case (Some i)
    with InstallCall show ?thesis
      by (cases uninst) simp_all
  qed
next
  case (UninstallCall inst uninst ip rb)
  show ?thesis
  proof (cases uninst)
    case None
    with UninstallCall show ?thesis by simp
  next
    case (Some u)
    with UninstallCall show ?thesis
      by (cases inst) simp_all
  qed
qed

lemma executeConfigurePackage_selected:
  "executeConfigurePackage inst uninst ip st rs =
     BeginSection (ExecuteConfigureSection st) # runCall (selectedCall inst uninst ip st) rs"
  by (simp add: executeConfigurePackage_def selectedCall_def)

lemma runCall_returns:
  "nextCall c rs = None \<Longrightarrow> runCall c rs = callStart c rs @ callEnd c rs"
  by (subst runCall_unfold) simp

lemma runCall_continues:
  "nextCall c rs = Some (c', rs') \<Longrightarrow> runCall c rs = callStart c rs @ runCall c' rs'"
  by (subst runCall_unfold) simp

text \<open>Induction along the calls of a run: a call returns, or goes on with the next.\<close>

lemma call_induct [case_names returns continues]:
  assumes "\<And>c rs. nextCall c rs = None \<Longrightarrow> P c rs"
    and "\<And>c rs c' rs'. nextCall c rs = Some (c', rs') \<Longrightarrow> P c' rs' \<Longrightarrow> P c rs"
  shows "P c rs"
proof (induction c rs rule: callTrace.induct)
  case (1 c rs)
  show ?case
  proof (cases "nextCall c rs")
    case None
    then show ?thesis by (rule assms(1))
  next
    case (Some p)
    obtain c' rs' where p: "p = (c', rs')" by (cases p)
    from Some p have n: "nextCall c rs = Some (c', rs')" by simp
    from 1 [OF Some p [symmetric]] have "P c' rs'" .
    with n show ?thesis by (rule assms(2))
  qed
qed

lemma reports_append: "reports (xs @ ys) = reports xs @ reports ys"
  by (simp add: reports_def)

lemma stateWrites_append: "stateWrites (xs @ ys) = stateWrites xs @ stateWrites ys"
  by (simp add: stateWrites_def)

lemma callChain_append: "callChain (xs @ ys) = callChain xs @ callChain ys"
  by (simp add: callChain_def)

lemma lastState_append:
  "stateWrites ys \<noteq> [] \<Longrightarrow> lastState (xs @ ys) = lastState ys"
  by (simp add: lastState_def lastWrite_def stateWrites_append)

lemma lastWrite_append:
  "stateWrites ys \<noteq> [] \<Longrightarrow> lastWrite (xs @ ys) = lastWrite ys"
  by (simp add: lastWrite_def stateWrites_append)

lemma lastState_Some: "lastState evs = Some s \<Longrightarrow> stateWrites evs \<noteq> []"
  by (auto simp: lastState_def lastWrite_def)

subsubsection \<open>Reports and panics\<close>

lemma callStart_reports: "reports (callStart c rs) = []"
  by (induction c rs rule: callStart.induct) (simp_all add: reports_def setNewInstallState_def)

lemma callStart_no_Panic: "Panic \<notin> set (callStart c rs)"
  by (induction c rs rule: callStart.induct) (simp_all add: setNewInstallState_def)

lemma callEnd_reports:
  "nextCall c rs = None \<Longrightarrow>
   (if Panic \<in> set (callEnd c rs) then reports (callEnd c rs) = []
    else length (reports (callEnd c rs)) = 1)"
  by (induction c rs rule: callEnd.induct)
    (auto simp: reports_def setNewInstallState_def cleanupAfterUninstall_def
          split: option.splits)

lemma runCall_reports:
  "(if Panic \<in> set (runCall c rs) then reports (runCall c rs) = []
    else length (reports (runCall c rs)) = 1)"
proof (induction c rs rule: call_induct)
  case (returns c rs)
  with callEnd_reports [OF returns] show ?case
    by (simp add: runCall_returns reports_append callStart_reports callStart_no_Panic)
next
  case (continues c rs c' rs')
  then show ?case
    by (simp add: runCall_continues reports_append callStart_reports callStart_no_Panic)
qed

lemma nextCall_handlesGiven:
  "nextCall c rs = Some (c', rs') \<Longrightarrow> handlesGiven c'"
  by (induction c rs rule: nextCall.induct) (auto split: if_splits)

lemma callEnd_no_Panic:
  "handlesGiven c \<Longrightarrow> Panic \<notin> set (callEnd c rs)"
  by (induction c rs rule: callEnd.induct)
    (auto simp: setNewInstallState_def cleanupAfterUninstall_def split: if_splits)

lemma runCall_no_Panic: "handlesGiven c \<Longrightarrow> Panic \<notin> set (runCall c rs)"
proof (induction c rs rule: call_induct)
  case (returns c rs)
  then show ?case
    by (simp add: runCall_returns callStart_no_Panic callEnd_no_Panic)
next
  case (continues c rs c' rs')
  from continues(1) have "handlesGiven c'" by (rule nextCall_handlesGiven)
  with continues show ?case
    by (simp add: runCall_continues callStart_no_Panic)
qed

subsubsection \<open>The state a run leaves\<close>

lemma callEnd_final:
  "nextCall c rs = None \<Longrightarrow> reports (callEnd c rs) \<noteq> [] \<Longrightarrow>
   reports (callEnd c rs) \<noteq> [MarkAsSuccessWithReboot] \<Longrightarrow>
   lastState (callEnd c rs) \<in> {Some Installed, Some None_state, Some Failed}"
  by (induction c rs rule: callEnd.induct)
    (auto simp: read_simps setNewInstallState_def cleanupAfterUninstall_def
          split: option.splits if_splits)

lemma runCall_final:
  "reports (runCall c rs) \<noteq> [] \<Longrightarrow> reports (runCall c rs) \<noteq> [MarkAsSuccessWithReboot] \<Longrightarrow>
   lastState (runCall c rs) \<in> {Some Installed, Some None_state, Some Failed}"
proof (induction c rs rule: call_induct)
  case (returns c rs)
  from returns(2,3) have r: "reports (callEnd c rs) \<noteq> []"
      "reports (callEnd c rs) \<noteq> [MarkAsSuccessWithReboot]"
    by (simp_all add: runCall_returns [OF returns(1)] reports_append callStart_reports)
  from callEnd_final [OF returns(1) r]
  have f: "lastState (callEnd c rs) \<in> {Some Installed, Some None_state, Some Failed}" .
  then have "stateWrites (callEnd c rs) \<noteq> []" by (auto dest: lastState_Some)
  with f show ?case
    by (simp add: runCall_returns [OF returns(1)] lastState_append)
next
  case (continues c rs c' rs')
  from continues(3,4) have r: "reports (runCall c' rs') \<noteq> []"
      "reports (runCall c' rs') \<noteq> [MarkAsSuccessWithReboot]"
    by (simp_all add: runCall_continues [OF continues(1)] reports_append callStart_reports)
  from continues(2) [OF r]
  have f: "lastState (runCall c' rs') \<in> {Some Installed, Some None_state, Some Failed}" .
  then have "stateWrites (runCall c' rs') \<noteq> []" by (auto dest: lastState_Some)
  with f show ?case
    by (simp add: runCall_continues [OF continues(1)] lastState_append)
qed

subsubsection \<open>The chain of sub-procedures\<close>

lemma callEnd_callChain: "callChain (callEnd c rs) = []"
  by (induction c rs rule: callEnd.induct)
    (auto simp: callChain_def setNewInstallState_def cleanupAfterUninstall_def
          split: option.splits)

lemma callStart_prefix: "prefix (callChain (callStart c rs)) (chainFrom c)"
  by (induction c rs rule: callStart.induct)
    (auto simp: callChain_def setNewInstallState_def)

lemma callStart_continues:
  "nextCall c rs = Some (c', rs') \<Longrightarrow>
   \<exists>e. callChain (callStart c rs) = [e] \<and> chainFrom c = e # chainFrom c'"
  by (induction c rs rule: nextCall.induct)
    (auto simp: callChain_def setNewInstallState_def split: if_splits)

lemma runCall_callChain: "prefix (callChain (runCall c rs)) (chainFrom c)"
proof (induction c rs rule: call_induct)
  case (returns c rs)
  then show ?case
    by (simp add: runCall_returns callChain_append callEnd_callChain callStart_prefix)
next
  case (continues c rs c' rs')
  from callStart_continues [OF continues(1)] obtain e
    where "callChain (callStart c rs) = [e]" "chainFrom c = e # chainFrom c'" by blast
  with continues(2) show ?case
    by (simp add: runCall_continues [OF continues(1)] callChain_append)
qed

lemma chainFrom_suffix:
  "suffix (chainFrom c)
     [(UninstallPath, False), (InstallPath, False), (UninstallPath, True), (InstallPath, True)]"
  by (cases c) (simp_all add: suffix_Cons)

lemma callStart_length: "length (callStart c rs) \<le> startBound c"
  by (induction c rs rule: callStart.induct) (simp_all add: setNewInstallState_def)

lemma callEnd_length: "length (callEnd c rs) \<le> 5"
  by (induction c rs rule: callEnd.induct)
     (auto simp: setNewInstallState_def cleanupAfterUninstall_def split: option.splits)

lemma nextCall_lengthBound:
  "nextCall c rs = Some (c', rs') \<Longrightarrow> startBound c + lengthBound c' \<le> lengthBound c"
  by (induction c rs rule: nextCall.induct) (auto split: if_splits)

lemma runCall_length: "length (runCall c rs) \<le> lengthBound c"
proof (induction c rs rule: call_induct)
  case (returns c rs)
  have "startBound c + 5 \<le> lengthBound c"
    by (cases c) simp_all
  with callStart_length [of c rs] callEnd_length [of c rs] show ?case
    by (simp add: runCall_returns [OF returns])
next
  case (continues c rs c' rs')
  from callStart_length [of c rs] nextCall_lengthBound [OF continues(1)] continues(2)
  show ?case
    by (simp add: runCall_continues [OF continues(1)])
qed

lemma callTrace_length: "length (callTrace c rs) \<le> Suc (rank c)"
proof (induction c rs rule: call_induct)
  case (returns c rs)
  then show ?case by (subst callTrace.simps) simp
next
  case (continues c rs c' rs')
  from nextCall_rank [OF continues(1)] continues(2) show ?case
    by (subst callTrace.simps) (simp add: continues(1))
qed

subsubsection \<open>Resuming\<close>

lemma selectedCall_resumable: "resumable inst uninst ip (selectedCall inst uninst ip st)"
  by (simp add: resumable_def selectedCall_def)

lemma nextCall_resumable:
  "nextCall c rs = Some (c', rs') \<Longrightarrow> resumable inst uninst ip c \<Longrightarrow> resumable inst uninst ip c'"
  by (induction c rs rule: nextCall.induct) (auto simp: resumable_def split: if_splits)

lemma resumable_selected:
  "resumable inst uninst ip c \<Longrightarrow> selectedCall inst uninst ip (markerOf c) = c"
  by (auto simp: resumable_def selectedCall_def split: if_splits)

lemma callTrace_returns: "nextCall c rs = None \<Longrightarrow> callTrace c rs = [(c, rs)]"
  by (subst callTrace.simps) simp

lemma callTrace_continues:
  "nextCall c rs = Some (c', rs') \<Longrightarrow> callTrace c rs = (c, rs) # callTrace c' rs'"
  by (subst callTrace.simps) simp

lemma callTrace_resumable:
  "(c, rs') \<in> set (callTrace c0 rs) \<Longrightarrow> resumable inst uninst ip c0 \<Longrightarrow>
   resumable inst uninst ip c"
proof (induction c0 rs rule: call_induct)
  case (returns c0 rs)
  from returns(2) have "c = c0" by (simp add: callTrace_returns [OF returns(1)])
  with returns(3) show ?case by simp
next
  case (continues c0 rs c1 rs1)
  from continues(3)
  have "(c, rs') = (c0, rs) \<or> (c, rs') \<in> set (callTrace c1 rs1)"
    by (simp add: callTrace_continues [OF continues(1)])
  then show ?case
  proof
    assume "(c, rs') = (c0, rs)"
    with continues(4) show ?thesis by simp
  next
    assume "(c, rs') \<in> set (callTrace c1 rs1)"
    moreover from continues(1,4) have "resumable inst uninst ip c1"
      by (rule nextCall_resumable)
    ultimately show ?thesis by (rule continues(2))
  qed
qed

lemma nextCall_writes:
  "nextCall c rs = Some (c', rs') \<Longrightarrow> stateWrites (callStart c' rs'') \<noteq> []"
  by (induction c rs rule: nextCall.induct)
     (auto simp: stateWrites_def setNewInstallState_def split: if_splits)

lemma callTrace_writes:
  "(c, rs') \<in> set (callTrace c0 rs) \<Longrightarrow>
   (c, rs') = (c0, rs) \<or> stateWrites (runCall c rs') \<noteq> []"
proof (induction c0 rs rule: call_induct)
  case (returns c0 rs)
  then show ?case by (simp add: callTrace_returns)
next
  case (continues c0 rs c1 rs1)
  from continues(3)
  have "(c, rs') = (c0, rs) \<or> (c, rs') \<in> set (callTrace c1 rs1)"
    by (simp add: callTrace_continues [OF continues(1)])
  then show ?case
  proof
    assume "(c, rs') = (c0, rs)"
    then show ?thesis by simp
  next
    assume "(c, rs') \<in> set (callTrace c1 rs1)"
    then have "(c, rs') = (c1, rs1) \<or> stateWrites (runCall c rs') \<noteq> []"
      by (rule continues(2))
    moreover have "stateWrites (runCall c1 rs1) \<noteq> []"
      using nextCall_writes [OF continues(1), of rs1]
      by (subst runCall_unfold) (simp add: stateWrites_append)
    ultimately show ?thesis by auto
  qed
qed

lemma callTrace_suffix:
  "(c, rs') \<in> set (callTrace c0 rs) \<Longrightarrow>
   \<exists>pre. runCall c0 rs = pre @ runCall c rs' \<and> reports pre = []"
proof (induction c0 rs rule: call_induct)
  case (returns c0 rs)
  from returns(2) have "(c, rs') = (c0, rs)" by (simp add: callTrace_returns [OF returns(1)])
  then have "runCall c0 rs = [] @ runCall c rs' \<and> reports [] = []" by (simp add: reports_def)
  then show ?case by blast
next
  case (continues c0 rs c1 rs1)
  from continues(3)
  have "(c, rs') = (c0, rs) \<or> (c, rs') \<in> set (callTrace c1 rs1)"
    by (simp add: callTrace_continues [OF continues(1)])
  then show ?case
  proof
    assume "(c, rs') = (c0, rs)"
    then have "runCall c0 rs = [] @ runCall c rs' \<and> reports [] = []" by (simp add: reports_def)
    then show ?thesis by blast
  next
    assume "(c, rs') \<in> set (callTrace c1 rs1)"
    then obtain pre where pre: "runCall c1 rs1 = pre @ runCall c rs'" "reports pre = []"
      using continues(2) by blast
    have "runCall c0 rs = (callStart c0 rs @ pre) @ runCall c rs'"
      by (simp add: runCall_continues [OF continues(1)] pre(1))
    moreover have "reports (callStart c0 rs @ pre) = []"
      by (simp add: reports_append callStart_reports pre(2))
    ultimately show ?thesis by blast
  qed
qed

lemma runCall_first_write:
  "runCall c rs = [Panic] \<or> (\<exists>n v ws. stateWrites (runCall c rs) = (n, v, markerOf c) # ws)"
proof (cases "callStart c rs = []")
  case True
  then have "runCall c rs = [Panic]"
    by (induction c rs rule: callStart.induct) simp_all
  then show ?thesis ..
next
  case False
  then have "\<exists>n v. stateWrites (callStart c rs) = [(n, v, markerOf c)]"
    by (induction c rs rule: callStart.induct)
       (auto simp: stateWrites_def setNewInstallState_def)
  then show ?thesis
    by (subst (2) runCall_unfold) (auto simp: stateWrites_append)
qed

subsubsection \<open>Results that agree\<close>

lemma agree_shd: "agree ip rs rs' \<Longrightarrow> result (shd rs) = result (shd rs')"
  by (auto simp: agree_def dest: arg_cong [where f = shd])

lemma agree_words: "agree ip rs rs' \<Longrightarrow> ip \<Longrightarrow> missingUpdateScript (shd rs) = missingUpdateScript (shd rs')"
  by (auto simp: agree_def dest: arg_cong [where f = shd])

lemma agree_stl: "agree ip rs rs' \<Longrightarrow> agree ip (stl rs) (stl rs')"
  by (auto simp: agree_def dest: arg_cong [where f = stl])

lemma agree_validated: "agree ip rs rs' \<Longrightarrow> validated rs = validated rs'"
  by (simp add: validated_def agree_shd)

lemma agree_installRest: "agree ip rs rs' \<Longrightarrow> agree ip (installRest rs) (installRest rs')"
  by (simp add: installRest_def agree_validated [of ip rs rs'] agree_stl)

lemma agree_installOutcome:
  assumes "agree ip rs rs'"
  shows "result (installOutcome rs) = result (installOutcome rs')"
proof -
  from assms have v: "validated rs = validated rs'" by (rule agree_validated)
  from assms have "agree ip (stl rs) (stl rs')" by (rule agree_stl)
  then have "result (shd (stl rs)) = result (shd (stl rs'))" by (rule agree_shd)
  with v agree_shd [OF assms] show ?thesis by (simp add: installOutcome_def)
qed

lemma agree_installWords:
  assumes "agree ip rs rs'" and "ip"
  shows "missingUpdateScript (installOutcome rs) = missingUpdateScript (installOutcome rs')"
proof -
  from assms(1) have v: "validated rs = validated rs'" by (rule agree_validated)
  from assms(1) have "agree ip (stl rs) (stl rs')" by (rule agree_stl)
  then have "missingUpdateScript (shd (stl rs)) = missingUpdateScript (shd (stl rs'))"
    using assms(2) by (rule agree_words)
  with v agree_words [OF assms] show ?thesis by (simp add: installOutcome_def)
qed

lemma agree_decision:
  assumes "agree ip rs rs'"
  shows "(ip \<and> Contains (outputStderr (installOutcome rs)) ''missing update script'') =
         (ip \<and> Contains (outputStderr (installOutcome rs')) ''missing update script'')"
proof (cases ip)
  case True
  with agree_installWords [OF assms] show ?thesis by (simp add: missingUpdateScript_def)
next
  case False
  then show ?thesis by simp
qed

lemma callStart_agree: "agree (inPlaceOf c) rs rs' \<Longrightarrow> callStart c rs = callStart c rs'"
  by (induction c rs rule: callStart.induct) (simp_all add: agree_validated)

lemma callEnd_agree: "agree (inPlaceOf c) rs rs' \<Longrightarrow> callEnd c rs = callEnd c rs'"
proof (induction c rs rule: callEnd.induct)
  case (2 i uninst ip rb rs)
  from 2 have a: "agree ip rs rs'" by simp
  show ?case
    by (simp only: callEnd.simps agree_installOutcome [OF a] agree_decision [OF a])
next
  case (4 inst u ip rb rs)
  then have "agree ip rs rs'" by simp
  then have "result (shd rs) = result (shd rs')" by (rule agree_shd)
  then show ?case by (simp only: callEnd.simps)
qed simp_all

lemma nextCall_agree:
  "agree (inPlaceOf c) rs rs' \<Longrightarrow>
   map_option fst (nextCall c rs') = map_option fst (nextCall c rs)"
proof (induction c rs rule: nextCall.induct)
  case (2 i uninst ip rb rs)
  from 2 have a: "agree ip rs rs'" by simp
  show ?case
    by (simp only: nextCall.simps agree_installOutcome [OF a] agree_decision [OF a]) simp
next
  case (4 inst u ip rb rs)
  then have "agree ip rs rs'" by simp
  then have "result (shd rs) = result (shd rs')" by (rule agree_shd)
  then show ?case by (simp only: nextCall.simps) simp
qed simp_all

lemma nextCall_rest:
  "nextCall c rs = Some (c', rs1) \<Longrightarrow>
   inPlaceOf c' = inPlaceOf c \<and>
   ((\<exists>i u ip rb. c = InstallCall i u ip rb) \<and> rs1 = installRest rs \<or>
    (\<exists>i u ip rb. c = UninstallCall i u ip rb) \<and> rs1 = stl rs)"
  by (induction c rs rule: nextCall.induct) (auto split: if_splits)

lemma nextCall_agree_None:
  assumes "agree (inPlaceOf c) rs rs'" and "nextCall c rs = None"
  shows "nextCall c rs' = None"
  using nextCall_agree [OF assms(1)] assms(2) by simp

lemma nextCall_agree_Some:
  assumes "agree (inPlaceOf c) rs rs'" and "nextCall c rs = Some (c', rs1)"
  shows "\<exists>rs1'. nextCall c rs' = Some (c', rs1') \<and> agree (inPlaceOf c') rs1 rs1'"
proof -
  from nextCall_agree [OF assms(1)] assms(2)
  obtain rs1' where n: "nextCall c rs' = Some (c', rs1')" by (auto simp: map_option_case split: option.splits)
  from nextCall_rest [OF assms(2)] nextCall_rest [OF n]
  have f: "inPlaceOf c' = inPlaceOf c"
    and r: "rs1 = installRest rs \<and> rs1' = installRest rs' \<or> rs1 = stl rs \<and> rs1' = stl rs'"
    by auto
  from r have "agree (inPlaceOf c) rs1 rs1'"
    using agree_installRest [OF assms(1)] agree_stl [OF assms(1)] by auto
  with f n show ?thesis by simp
qed

lemma runCall_agree: "agree (inPlaceOf c) rs rs' \<Longrightarrow> runCall c rs' = runCall c rs"
proof (induction c rs arbitrary: rs' rule: call_induct)
  case (returns c rs)
  from returns(2,1) have "nextCall c rs' = None" by (rule nextCall_agree_None)
  with returns show ?case
    by (simp add: runCall_returns callStart_agree [of c rs rs'] callEnd_agree [of c rs rs'])
next
  case (continues c rs c' rs1)
  from nextCall_agree_Some [OF continues(3,1)] obtain rs1'
    where n: "nextCall c rs' = Some (c', rs1')" and a: "agree (inPlaceOf c') rs1 rs1'"
    by blast
  from a have "runCall c' rs1' = runCall c' rs1" by (rule continues(2))
  then show ?case
    by (simp add: runCall_continues [OF continues(1)] runCall_continues [OF n]
        callStart_agree [OF continues(3)])
qed

lemma resumable_inPlaceOf: "resumable inst uninst ip c \<Longrightarrow> inPlaceOf c = ip"
  by (auto simp: resumable_def)

subsubsection \<open>The missing update script\<close>

lemma executeInstall_reclassified:
  assumes "\<not> IsSuccess (Status (result (installOutcome rs)))"
    and "Contains (outputStderr (installOutcome rs)) ''missing update script''"
  shows "executeInstall (Some i) uninst True rb rs =
     callStart (InstallCall (Some i) uninst True rb) rs @
     setNewInstallState i Installed @ [MarkAsFailed]"
  using assms by (simp add: IsSuccess_def IsReboot_def)

subsection \<open>The install sub-procedure: state persisted and action invoked\<close>

text \<open>
  Claim C6, as the code has it. The first four collaborator calls of every run of
  \<open>executeInstall\<close> on a target are: the section of line 83, the section and the write
  of \<open>setNewInstallState\<close>, and the action. The state written is \<open>RollbackInstall\<close> for
  a rollback, else \<open>Updating\<close> for an in-place update, else \<open>Installing\<close>. The action
  is \<open>Install\<close> for a rollback, else \<open>Update\<close> for an in-place update, else
  \<open>Install\<close>: the rollback test of line 88 comes before the in-place test of line 91,
  so an in-place invocation that is a rollback invokes \<open>Install\<close>.
\<close>

theorem install_state_then_action:
  "take 4 (executeInstall (Some i) uninst isUpdateInPlace isRollback rs) =
     [BeginSection (InstallSection (PackageName i) (Version i) isRollback isUpdateInPlace),
      BeginSection (SetInstallStateSection (PackageName i) (Version i)
        (if isRollback then RollbackInstall
         else if isUpdateInPlace then Updating else Installing)),
      SetInstallState (PackageName i) (Version i)
        (if isRollback then RollbackInstall
         else if isUpdateInPlace then Updating else Installing),
      Invoke (if isRollback then Install
              else if isUpdateInPlace then Update else Install) i]"
  by (simp add: setNewInstallState_def)

text \<open>
  Claim C6 as stated fails: with the in-place flag set and the rollback flag set, the
  only action invoked on the target is \<open>Install\<close>, never \<open>Update\<close>.
\<close>

theorem in_place_rollback_invokes_Install:
  "invocations (executeInstall (Some (pkg ''A'' ''1'')) None True True
      (sconst (gives ResultStatusFailed 1 [] []))) = [(Install, pkg ''A'' ''1'')]"
  by (simp add: run_simps read_simps)

subsection \<open>The uninstall sub-procedure: reboot pending, no counterpart\<close>

text \<open>
  Claim C8, as the code has it. A run of \<open>executeUninstall\<close> that is not a rollback, has
  no version to reinstall (\<open>inst\<close> is \<open>nil\<close>) and whose \<open>Uninstall\<close> action returns
  reboot-pending is exactly: the section, the write of \<open>Uninstalling\<close>, the action, the
  reboot section and \<open>MarkAsSuccessWithReboot\<close>. So the outcome reported is success
  with reboot, \<open>Uninstalling\<close> is the only state written, and \<open>RemovePackage\<close> is not
  called.
\<close>

theorem uninstall_reboot_pending:
  assumes "IsReboot (Status (result (shd rs)))"
  shows "executeUninstall None (Some u) isUpdateInPlace False rs =
      [BeginSection (UninstallSection (PackageName u) (Version u) False),
       BeginSection (SetInstallStateSection (PackageName u) (Version u) Uninstalling),
       SetInstallState (PackageName u) (Version u) Uninstalling,
       Invoke Uninstall u,
       BeginSection (RebootUninstallSection (PackageName u) (Version u) False),
       MarkAsSuccessWithReboot]
    \<and> reports (executeUninstall None (Some u) isUpdateInPlace False rs)
        = [MarkAsSuccessWithReboot]
    \<and> stateWrites (executeUninstall None (Some u) isUpdateInPlace False rs)
        = [(PackageName u, Version u, Uninstalling)]
    \<and> removed (executeUninstall None (Some u) isUpdateInPlace False rs) = []"
  using assms by (simp add: run_simps read_simps)

theorem uninstall_reboot_pending_witness:
  "IsReboot (Status (result (shd (sconst (gives ResultStatusSuccessAndReboot 3010 [] [])))))
   \<and> executeUninstall None (Some (pkg ''A'' ''1'')) False False
       (sconst (gives ResultStatusSuccessAndReboot 3010 [] [])) =
      [BeginSection (UninstallSection ''A'' ''1'' False),
       BeginSection (SetInstallStateSection ''A'' ''1'' Uninstalling),
       SetInstallState ''A'' ''1'' Uninstalling,
       Invoke Uninstall (pkg ''A'' ''1''),
       BeginSection (RebootUninstallSection ''A'' ''1'' False),
       MarkAsSuccessWithReboot]"
  using uninstall_reboot_pending
    [of "sconst (gives ResultStatusSuccessAndReboot 3010 [] [])" "pkg ''A'' ''1''" False]
  by (simp add: IsReboot_def)

text \<open>
  Claim C8 as stated fails for a rollback: the state written before the action is then
  \<open>RollbackUninstall\<close> (line 165), and it is the state that remains.
\<close>

theorem rollback_uninstall_reboot_pending:
  "stateWrites (executeUninstall None (Some (pkg ''A'' ''1'')) False True
      (sconst (gives ResultStatusSuccessAndReboot 3010 [] [])))
     = [(''A'', ''1'', RollbackUninstall)]
   \<and> reports (executeUninstall None (Some (pkg ''A'' ''1'')) False True
      (sconst (gives ResultStatusSuccessAndReboot 3010 [] [])))
     = [MarkAsSuccessWithReboot]"
  by (simp add: run_simps read_simps)

subsection \<open>The state a finished run leaves\<close>

text \<open>
  Claim C1, as the code has it. When a top-level run has reported an outcome and the
  outcome is not success with reboot, the last state the run has written to the
  repository by the time it returns is \<open>Installed\<close>, \<open>None\<close> or \<open>Failed\<close>. (On the
  hard failure of an install, lines 125-127, the write of \<open>Failed\<close> comes after the call
  on the reporter.)
\<close>

theorem final_state_of_finished_run:
  assumes "reports (executeConfigurePackage inst uninst isUpdateInPlace st rs) \<noteq> []"
    and "reports (executeConfigurePackage inst uninst isUpdateInPlace st rs)
           \<noteq> [MarkAsSuccessWithReboot]"
  shows "lastState (executeConfigurePackage inst uninst isUpdateInPlace st rs)
           \<in> {Some Installed, Some None_state, Some Failed}"
proof -
  let ?c = "selectedCall inst uninst isUpdateInPlace st"
  have run: "executeConfigurePackage inst uninst isUpdateInPlace st rs =
      [BeginSection (ExecuteConfigureSection st)] @ runCall ?c rs"
    by (simp add: executeConfigurePackage_selected)
  from assms have r: "reports (runCall ?c rs) \<noteq> []"
      "reports (runCall ?c rs) \<noteq> [MarkAsSuccessWithReboot]"
    unfolding run by (simp_all add: reports_def)
  from runCall_final [OF r]
  have f: "lastState (runCall ?c rs) \<in> {Some Installed, Some None_state, Some Failed}" .
  then have "stateWrites (runCall ?c rs) \<noteq> []" by (auto dest: lastState_Some)
  then have "lastState ([BeginSection (ExecuteConfigureSection st)] @ runCall ?c rs) =
      lastState (runCall ?c rs)"
    by (rule lastState_append)
  with f show ?thesis unfolding run by simp
qed

theorem final_state_of_finished_run_witness:
  "reports (executeConfigurePackage (Some (pkg ''A'' ''1'')) None False None_state
      (sconst (gives ResultStatusFailed 1 [] []))) \<noteq> []
   \<and> reports (executeConfigurePackage (Some (pkg ''A'' ''1'')) None False None_state
      (sconst (gives ResultStatusFailed 1 [] []))) \<noteq> [MarkAsSuccessWithReboot]
   \<and> lastState (executeConfigurePackage (Some (pkg ''A'' ''1'')) None False None_state
      (sconst (gives ResultStatusFailed 1 [] []))) = Some Failed"
  using final_state_of_finished_run [of "Some (pkg ''A'' ''1'')" None False None_state
    "sconst (gives ResultStatusFailed 1 [] [])"]
  by (simp add: run_simps read_simps)

text \<open>
  Claim C1 as stated fails: a first install with no counterpart whose \<open>Install\<close> action
  fails reports failure at line 125, and the last state written before that call is the
  in-progress marker \<open>Installing\<close>; \<open>Failed\<close> is written at line 127.
\<close>

theorem state_before_report_is_in_progress:
  "reports (executeConfigurePackage (Some (pkg ''A'' ''1'')) None False None_state
      (sconst (gives ResultStatusFailed 1 [] []))) = [MarkAsFailed]
   \<and> lastState (beforeReport
       (executeConfigurePackage (Some (pkg ''A'' ''1'')) None False None_state
         (sconst (gives ResultStatusFailed 1 [] [])))) = Some Installing"
  by (simp add: run_simps read_simps beforeReport_def)

subsection \<open>A failed install with a counterpart\<close>




subsection \<open>The missing update script\<close>

text \<open>
  Claim C5, as the code has it. Take a run of \<open>executeInstall\<close> with the in-place flag
  set whose install (after validation) ends in a failure, and let the standard error of
  the plugin output of the run, \<open>output.GetStderr()\<close>, contain \<open>missing update script\<close>.
  Then the states written are the in-progress marker and \<open>Installed\<close>, the outcome
  reported is failure, the run enters no other sub-procedure and removes nothing;
  whatever the exit code and the standard error of the result itself.
\<close>

theorem missing_update_script_keeps_Installed:
  assumes "\<not> IsSuccess (Status (result (installOutcome rs)))"
    and "Contains (outputStderr (installOutcome rs)) ''missing update script''"
  shows "stateWrites (executeInstall (Some i) uninst True isRollback rs) =
       [(PackageName i, Version i, if isRollback then RollbackInstall else Updating),
        (PackageName i, Version i, Installed)]
     \<and> reports (executeInstall (Some i) uninst True isRollback rs) = [MarkAsFailed]
     \<and> callChain (executeInstall (Some i) uninst True isRollback rs)
         = [(InstallPath, isRollback)]
     \<and> removed (executeInstall (Some i) uninst True isRollback rs) = []"
  unfolding executeInstall_reclassified [OF assms]
  by (auto simp: read_simps setNewInstallState_def)

theorem missing_update_script_keeps_Installed_witness:
  "\<not> IsSuccess (Status (result (installOutcome
        (sconst (gives ResultStatusFailed 7 [] ''update: missing update script'')))))
   \<and> Contains (outputStderr (installOutcome
        (sconst (gives ResultStatusFailed 7 [] ''update: missing update script''))))
        ''missing update script''
   \<and> stateWrites (executeInstall (Some (pkg ''A'' ''2'')) (Some (pkg ''A'' ''1'')) True False
        (sconst (gives ResultStatusFailed 7 [] ''update: missing update script'')))
       = [(''A'', ''2'', Updating), (''A'', ''2'', Installed)]
   \<and> reports (executeInstall (Some (pkg ''A'' ''2'')) (Some (pkg ''A'' ''1'')) True False
        (sconst (gives ResultStatusFailed 7 [] ''update: missing update script'')))
       = [MarkAsFailed]"
  using missing_update_script_keeps_Installed [of
    "sconst (gives ResultStatusFailed 7 [] ''update: missing update script'')"
    "pkg ''A'' ''2''" "Some (pkg ''A'' ''1'')" False]
  by (simp add: validated_def installOutcome_def IsSuccess_def)

text \<open>
  Claim C5 as stated fails: the text tested is not the standard error captured in the
  result of the action. An in-place update whose result carries \<open>missing update script\<close>,
  while the standard error of the plugin output does not, is a hard failure: \<open>Failed\<close>
  is written, not \<open>Installed\<close>.
\<close>

theorem result_stderr_is_not_tested:
  "\<not> IsSuccess (Status (result (installOutcome
        (sconst (gives ResultStatusFailed 1 ''missing update script'' [])))))
   \<and> Contains (Stderr (result (installOutcome
        (sconst (gives ResultStatusFailed 1 ''missing update script'' [])))))
        ''missing update script''
   \<and> stateWrites (executeInstall (Some (pkg ''A'' ''2'')) None True False
        (sconst (gives ResultStatusFailed 1 ''missing update script'' [])))
       = [(''A'', ''2'', Updating), (''A'', ''2'', Failed)]"
  by (simp add: run_simps read_simps)

text \<open>
  Claim C10. For a rollback install that fails, the state written after the marker is
  decided by the in-place flag and by the standard error of the plugin output alone:
  \<open>Installed\<close> when the flag is set and that text contains \<open>missing update script\<close>,
  else \<open>Failed\<close>. Neither the rollback flag nor the standard error of the result of
  the action takes part. The witness is a failing rollback install with the flag set,
  an empty standard error in the result and the words in the plugin output: \<open>Installed\<close>
  is written for the rollback target, and failure reported.
\<close>

theorem rollback_install_reclassified:
  assumes "\<not> IsSuccess (Status (result (installOutcome rs)))"
  shows "stateWrites (executeInstall (Some i) uninst isUpdateInPlace True rs) =
       [(PackageName i, Version i, RollbackInstall),
        (PackageName i, Version i,
          if isUpdateInPlace \<and>
             Contains (outputStderr (installOutcome rs)) ''missing update script''
          then Installed else Failed)]
     \<and> reports (executeInstall (Some i) uninst isUpdateInPlace True rs) = [MarkAsFailed]"
  using assms
  by (auto simp: read_simps setNewInstallState_def IsSuccess_def IsReboot_def)

theorem rollback_install_reclassified_witness:
  "\<not> IsSuccess (Status (result (installOutcome
        (sconst (gives ResultStatusFailed 1 [] ''update: missing update script'')))))
   \<and> Stderr (result (installOutcome
        (sconst (gives ResultStatusFailed 1 [] ''update: missing update script'')))) = []
   \<and> stateWrites (executeInstall (Some (pkg ''A'' ''1'')) (Some (pkg ''A'' ''2'')) True True
        (sconst (gives ResultStatusFailed 1 [] ''update: missing update script'')))
       = [(''A'', ''1'', RollbackInstall), (''A'', ''1'', Installed)]
   \<and> reports (executeInstall (Some (pkg ''A'' ''1'')) (Some (pkg ''A'' ''2'')) True True
        (sconst (gives ResultStatusFailed 1 [] ''update: missing update script'')))
       = [MarkAsFailed]"
  using rollback_install_reclassified [of
    "sconst (gives ResultStatusFailed 1 [] ''update: missing update script'')"
    "pkg ''A'' ''1''" "Some (pkg ''A'' ''2'')" True]
  by (simp add: validated_def installOutcome_def IsSuccess_def)

subsection \<open>One report for each run\<close>

text \<open>
  What the code does on every path. A top-level run that does not panic calls exactly
  one of \<open>MarkAsSucceeded\<close>, \<open>MarkAsSuccessWithReboot\<close>, \<open>MarkAsFailed\<close>, exactly once;
  a run that panics (a method call on a \<open>nil\<close> installer) has called none of them. No
  run panics when a target is given and, for the persisted state \<open>RollbackInstall\<close>, a
  counterpart as well; nor does the legacy path (a counterpart given, not in place, the
  persisted state none of \<open>Installing\<close>, \<open>Updating\<close>, \<open>RollbackInstall\<close>,
  \<open>RollbackUninstall\<close>), with or without a target.
\<close>

lemma one_report_unless_panic:
  "(if Panic \<in> set (executeConfigurePackage inst uninst isUpdateInPlace st rs)
    then reports (executeConfigurePackage inst uninst isUpdateInPlace st rs) = []
    else length (reports (executeConfigurePackage inst uninst isUpdateInPlace st rs)) = 1)
   \<and> (inst \<noteq> None \<and> (st = RollbackInstall \<longrightarrow> uninst \<noteq> None) \<longrightarrow>
        Panic \<notin> set (executeConfigurePackage inst uninst isUpdateInPlace st rs))
   \<and> (uninst \<noteq> None \<and> \<not> isUpdateInPlace \<and>
      st \<notin> {Installing, Updating, RollbackInstall, RollbackUninstall} \<longrightarrow>
        Panic \<notin> set (executeConfigurePackage inst uninst isUpdateInPlace st rs))"
proof -
  let ?c = "selectedCall inst uninst isUpdateInPlace st"
  have run: "executeConfigurePackage inst uninst isUpdateInPlace st rs =
      BeginSection (ExecuteConfigureSection st) # runCall ?c rs"
    by (rule executeConfigurePackage_selected)
  have a: "inst \<noteq> None \<and> (st = RollbackInstall \<longrightarrow> uninst \<noteq> None) \<longrightarrow> handlesGiven ?c"
    by (simp add: selectedCall_def)
  have b: "uninst \<noteq> None \<and> \<not> isUpdateInPlace \<and>
      st \<notin> {Installing, Updating, RollbackInstall, RollbackUninstall} \<longrightarrow> handlesGiven ?c"
    by (simp add: selectedCall_def)
  from runCall_reports [of ?c rs] a b runCall_no_Panic [of ?c rs] show ?thesis
    unfolding run by (auto simp: reports_def)
qed

text \<open>
  Claim C7 is what the code should do, and the code misses it by two unguarded uses of
  a handle that may be \<open>nil\<close>. Line 49 passes \<open>uninst\<close> untested as the handle that
  line 83 dereferences, where line 53 tests it: resuming from \<open>RollbackInstall\<close> without
  a counterpart panics before any call on the reporter. Line 139 formats
  \<open>uninst.PackageName()\<close> five lines after line 134 has tested \<open>uninst\<close>: resuming from
  \<open>RollbackInstall\<close> without a target, a rollback install that succeeds panics after
  the validation, again with no call on the reporter and with the marker
  \<open>RollbackInstall\<close> left as the last state written.
\<close>

theorem nil_handle_panics_without_report:
  "executeConfigurePackage (Some (pkg ''A'' ''2'')) None False RollbackInstall
      (sconst (gives ResultStatusSuccess 0 [] []))
     = [BeginSection (ExecuteConfigureSection RollbackInstall), Panic]
   \<and> reports (executeConfigurePackage (Some (pkg ''A'' ''2'')) None False RollbackInstall
      (sconst (gives ResultStatusSuccess 0 [] []))) = []
   \<and> executeConfigurePackage None (Some (pkg ''A'' ''1'')) False RollbackInstall
      (sconst (gives ResultStatusSuccess 0 [] []))
     = [BeginSection (ExecuteConfigureSection RollbackInstall),
        BeginSection (InstallSection ''A'' ''1'' True False),
        BeginSection (SetInstallStateSection ''A'' ''1'' RollbackInstall),
        SetInstallState ''A'' ''1'' RollbackInstall,
        Invoke Install (pkg ''A'' ''1''),
        BeginSection (ValidateSection ''A'' ''1'' True),
        Invoke Validate (pkg ''A'' ''1''), Panic]
   \<and> reports (executeConfigurePackage None (Some (pkg ''A'' ''1'')) False RollbackInstall
      (sconst (gives ResultStatusSuccess 0 [] []))) = []"
  by (simp add: run_simps read_simps)

subsection \<open>The recursion is bounded\<close>

text \<open>
  Claim C9. \<open>executeInstall\<close> and \<open>executeUninstall\<close> are total: their definition above
  is accepted with a measure that the rollback flag and the sub-procedure decide, and
  every run is a finite list of collaborator calls. The sub-procedures a top-level run
  enters, each with its rollback flag, are a consecutive part of: uninstall, install,
  rollback uninstall, rollback install. So an install starts a rollback only when it is
  not one itself, the rollback it starts has the flag set, nothing follows a rollback
  install, and an uninstall hands its flag on. A run makes at most four calls of the
  sub-procedures and at most 26 collaborator calls.
\<close>

theorem recursion_is_bounded:
  "sublist (callChain (executeConfigurePackage inst uninst isUpdateInPlace st rs))
     [(UninstallPath, False), (InstallPath, False), (UninstallPath, True), (InstallPath, True)]
   \<and> length (callTrace (selectedCall inst uninst isUpdateInPlace st) rs) \<le> 4
   \<and> length (executeConfigurePackage inst uninst isUpdateInPlace st rs) \<le> 26"
proof -
  let ?c = "selectedCall inst uninst isUpdateInPlace st"
  let ?full = "[(UninstallPath, False), (InstallPath, False), (UninstallPath, True),
    (InstallPath, True)]"
  have run: "executeConfigurePackage inst uninst isUpdateInPlace st rs =
      BeginSection (ExecuteConfigureSection st) # runCall ?c rs"
    by (rule executeConfigurePackage_selected)
  have "callChain (executeConfigurePackage inst uninst isUpdateInPlace st rs) =
      callChain (runCall ?c rs)"
    unfolding run by (simp add: callChain_def)
  moreover have "sublist (callChain (runCall ?c rs)) (chainFrom ?c)"
    by (rule prefix_imp_sublist) (rule runCall_callChain)
  moreover have "sublist (chainFrom ?c) ?full"
    by (rule suffix_imp_sublist) (rule chainFrom_suffix)
  ultimately have chain:
    "sublist (callChain (executeConfigurePackage inst uninst isUpdateInPlace st rs)) ?full"
    by (auto intro: sublist_order.order.trans)
  have "rank ?c \<le> 3" by (cases ?c) simp_all
  with callTrace_length [of ?c rs] have calls: "length (callTrace ?c rs) \<le> 4" by simp
  have "lengthBound ?c \<le> 25" by (cases ?c) simp_all
  with runCall_length [of ?c rs]
  have len: "length (executeConfigurePackage inst uninst isUpdateInPlace st rs) \<le> 26"
    unfolding run by simp
  from chain calls len show ?thesis by simp
qed

subsection \<open>The entry dispatcher\<close>

text \<open>
  Claim C3, as the code has it. The dispatcher opens its section and runs exactly one
  sub-procedure, once. From \<open>Installing\<close> or \<open>Updating\<close> it installs the target, not
  as a rollback. From \<open>RollbackInstall\<close> it installs the counterpart as a rollback,
  roles swapped. From \<open>RollbackUninstall\<close> it runs the uninstall sub-procedure as a
  rollback where the version being removed is the target and the version to reinstall
  afterwards the counterpart (line 51 passes \<open>uninst\<close> for the parameter \<open>inst\<close> and
  \<open>inst\<close> for the parameter \<open>uninst\<close>). From any other state, with a counterpart and
  not in place, it uninstalls the counterpart and goes on to install the target, not as
  a rollback; otherwise it installs the target. The last two conjuncts fix the roles:
  the install sub-procedure invokes its action on its target; the uninstall
  sub-procedure invokes \<open>Uninstall\<close> on the version being removed and, unless that asks
  for a reboot, goes on to install the version to reinstall.
\<close>

theorem dispatcher_runs_one_subprocedure:
  "executeConfigurePackage target counterpart isUpdateInPlace st rs =
     BeginSection (ExecuteConfigureSection st) #
     (if st = Installing \<or> st = Updating
      then installPath target counterpart isUpdateInPlace False rs
      else if st = RollbackInstall
      then installPath counterpart target isUpdateInPlace True rs
      else if st = RollbackUninstall
      then uninstallPath target counterpart isUpdateInPlace True rs
      else if counterpart \<noteq> None \<and> \<not> isUpdateInPlace
      then uninstallPath counterpart target isUpdateInPlace False rs
      else installPath target counterpart isUpdateInPlace False rs)
   \<and> take 1 (invocations (installPath (Some t) k ip rb rsI)) =
       [(if rb then Install else if ip then Update else Install, t)]
   \<and> take 1 (invocations (uninstallPath (Some r) kU ipU rbU rsU)) = [(Uninstall, r)]
   \<and> (\<not> IsReboot (Status (result (shd rsU))) \<longrightarrow>
        take 2 (invocations (uninstallPath (Some r) (Some tU) ipU rbU rsU)) =
          [(Uninstall, r), (if rbU then Install else if ipU then Update else Install, tU)])"
  by (simp add: executeConfigurePackage_def installPath_def uninstallPath_def
      invocations_def setNewInstallState_def IsReboot_def IsSuccess_def)

theorem dispatcher_runs_one_subprocedure_witness:
  "\<not> IsReboot (Status (result (shd (sconst (gives ResultStatusSuccess 0 [] [])))))
   \<and> take 2 (invocations (uninstallPath (Some (pkg ''A'' ''2'')) (Some (pkg ''A'' ''1''))
        False True (sconst (gives ResultStatusSuccess 0 [] []))))
      = [(Uninstall, pkg ''A'' ''2''), (Install, pkg ''A'' ''1'')]
   \<and> invocations (executeConfigurePackage (Some (pkg ''A'' ''2'')) (Some (pkg ''A'' ''1''))
        False RollbackUninstall (sconst (gives ResultStatusSuccess 0 [] [])))
      = [(Uninstall, pkg ''A'' ''2''), (Install, pkg ''A'' ''1''),
         (Validate, pkg ''A'' ''1'')]"
  using dispatcher_runs_one_subprocedure [where
    target = "Some (pkg ''A'' ''2'')" and counterpart = "Some (pkg ''A'' ''1'')"
    and isUpdateInPlace = False and st = RollbackUninstall
    and rs = "sconst (gives ResultStatusSuccess 0 [] [])"
    and r = "pkg ''A'' ''2''" and tU = "pkg ''A'' ''1''" and ipU = False and rbU = True
    and rsU = "sconst (gives ResultStatusSuccess 0 [] [])"]
  by (simp add: run_simps read_simps installPath_def uninstallPath_def)

text \<open>
  Claim C3 as stated fails for \<open>RollbackUninstall\<close>: with target A 2 and counterpart
  A 1 the code invokes \<open>Uninstall\<close> on the target A 2, where the table of the claim
  removes the counterpart A 1.
\<close>

theorem rollback_uninstall_removes_target:
  "executeConfigurePackage (Some (pkg ''A'' ''2'')) (Some (pkg ''A'' ''1'')) False
      RollbackUninstall (sconst (gives ResultStatusSuccessAndReboot 3010 [] []))
    \<noteq> BeginSection (ExecuteConfigureSection RollbackUninstall) #
      claimedDispatch (Some (pkg ''A'' ''2'')) (Some (pkg ''A'' ''1'')) False
        RollbackUninstall (sconst (gives ResultStatusSuccessAndReboot 3010 [] []))
   \<and> invocations (executeConfigurePackage (Some (pkg ''A'' ''2'')) (Some (pkg ''A'' ''1''))
        False RollbackUninstall (sconst (gives ResultStatusSuccessAndReboot 3010 [] [])))
      = [(Uninstall, pkg ''A'' ''2'')]
   \<and> invocations (claimedDispatch (Some (pkg ''A'' ''2'')) (Some (pkg ''A'' ''1''))
        False RollbackUninstall (sconst (gives ResultStatusSuccessAndReboot 3010 [] [])))
      = [(Uninstall, pkg ''A'' ''1'')]"
  by (simp add: run_simps read_simps installPath_def uninstallPath_def claimedDispatch_def)

subsection \<open>Resuming from the persisted state\<close>

text \<open>
  Every call of a sub-procedure that a top-level run makes is the call the dispatcher
  selects, with the same handles and flag, for the marker that call persists; run again
  on what the call and its successors were given back, it ends as the first run ends.
\<close>

lemma resume_on_same_returns:
  assumes "(c, rs') \<in> set (callTrace (selectedCall inst uninst isUpdateInPlace st) rs)"
  shows "executeConfigurePackage inst uninst isUpdateInPlace (markerOf c) rs' =
       BeginSection (ExecuteConfigureSection (markerOf c)) # runCall c rs'
     \<and> reports (executeConfigurePackage inst uninst isUpdateInPlace (markerOf c) rs') =
       reports (executeConfigurePackage inst uninst isUpdateInPlace st rs)
     \<and> lastWrite (executeConfigurePackage inst uninst isUpdateInPlace (markerOf c) rs') =
       lastWrite (executeConfigurePackage inst uninst isUpdateInPlace st rs)
     \<and> (runCall c rs' = [Panic] \<or>
        (\<exists>n v ws. stateWrites (runCall c rs') = (n, v, markerOf c) # ws))"
proof -
  let ?c0 = "selectedCall inst uninst isUpdateInPlace st"
  let ?resumed = "executeConfigurePackage inst uninst isUpdateInPlace (markerOf c) rs'"
  let ?whole = "executeConfigurePackage inst uninst isUpdateInPlace st rs"
  have "resumable inst uninst isUpdateInPlace c"
    using assms selectedCall_resumable by (rule callTrace_resumable)
  then have sel: "selectedCall inst uninst isUpdateInPlace (markerOf c) = c"
    by (rule resumable_selected)
  have resumed: "?resumed = BeginSection (ExecuteConfigureSection (markerOf c)) # runCall c rs'"
    by (simp add: executeConfigurePackage_selected sel)
  from callTrace_suffix [OF assms] obtain pre
    where pre: "runCall ?c0 rs = pre @ runCall c rs'" "reports pre = []" by blast
  have whole: "?whole = (BeginSection (ExecuteConfigureSection st) # pre) @ runCall c rs'"
    by (simp add: executeConfigurePackage_selected pre(1))
  have rep: "reports ?resumed = reports ?whole"
    unfolding whole resumed using pre(2) by (simp add: reports_def)
  have lw: "lastWrite ?resumed = lastWrite ?whole"
  proof (cases "stateWrites (runCall c rs') = []")
    case False
    then have "lastWrite ((BeginSection (ExecuteConfigureSection st) # pre) @ runCall c rs') =
        lastWrite (runCall c rs')"
      by (rule lastWrite_append)
    moreover from False
    have "lastWrite ([BeginSection (ExecuteConfigureSection (markerOf c))] @ runCall c rs') =
        lastWrite (runCall c rs')"
      by (rule lastWrite_append)
    ultimately show ?thesis unfolding whole resumed by simp
  next
    case True
    with callTrace_writes [OF assms] have "c = ?c0" "rs' = rs" by simp_all
    with True have "stateWrites (runCall ?c0 rs) = []" by simp
    with True show ?thesis
      unfolding resumed
      by (simp add: executeConfigurePackage_selected lastWrite_def stateWrites_def)
  qed
  from resumed rep lw runCall_first_write [of c rs'] show ?thesis by simp
qed

text \<open>
  Claim C2, as the code has it. Let \<open>c\<close> be any call of a sub-procedure that a
  top-level run with the handles \<open>inst\<close>, \<open>uninst\<close> and the flag \<open>isUpdateInPlace\<close>
  makes, directly or in a rollback or continuation chain, and \<open>rs'\<close> what its
  invocations and those after it give back in the uninterrupted run. The call persists
  \<open>markerOf c\<close> before its action (unless it panics at once), so that is the state an
  interruption leaves. Invoke the orchestrator again from that state with the same
  handles and flag, and let its invocations give back \<open>rs''\<close>: the same results as
  \<open>rs'\<close> and, when the in-place flag is set, the same answer to the test of line 116
  (does \<open>output.GetStderr()\<close> contain \<open>missing update script\<close>). Then it runs exactly the
  call \<open>c\<close>, reports what the uninterrupted run reports and leaves the last written
  state the uninterrupted run leaves. This covers \<open>Installing\<close>, \<open>Updating\<close>,
  \<open>RollbackInstall\<close> and \<open>RollbackUninstall\<close> (and \<open>Upgrading\<close>, \<open>Uninstalling\<close>).
\<close>

theorem resumed_run_same_outcome:
  assumes "(c, rs') \<in> set (callTrace (selectedCall inst uninst isUpdateInPlace st) rs)"
    and "smap result rs'' = smap result rs'"
    and "isUpdateInPlace \<Longrightarrow> smap missingUpdateScript rs'' = smap missingUpdateScript rs'"
  shows "executeConfigurePackage inst uninst isUpdateInPlace (markerOf c) rs'' =
       BeginSection (ExecuteConfigureSection (markerOf c)) # runCall c rs'
     \<and> reports (executeConfigurePackage inst uninst isUpdateInPlace (markerOf c) rs'') =
       reports (executeConfigurePackage inst uninst isUpdateInPlace st rs)
     \<and> lastWrite (executeConfigurePackage inst uninst isUpdateInPlace (markerOf c) rs'') =
       lastWrite (executeConfigurePackage inst uninst isUpdateInPlace st rs)
     \<and> (runCall c rs' = [Panic] \<or>
        (\<exists>n v ws. stateWrites (runCall c rs') = (n, v, markerOf c) # ws))"
proof -
  have r: "resumable inst uninst isUpdateInPlace c"
    using assms(1) selectedCall_resumable by (rule callTrace_resumable)
  then have sel: "selectedCall inst uninst isUpdateInPlace (markerOf c) = c"
    by (rule resumable_selected)
  from r have "inPlaceOf c = isUpdateInPlace" by (rule resumable_inPlaceOf)
  with assms(2,3) have "agree (inPlaceOf c) rs' rs''" by (auto simp: agree_def)
  then have "runCall c rs'' = runCall c rs'" by (rule runCall_agree)
  then have same: "executeConfigurePackage inst uninst isUpdateInPlace (markerOf c) rs'' =
      executeConfigurePackage inst uninst isUpdateInPlace (markerOf c) rs'"
    by (simp add: executeConfigurePackage_selected sel)
  from resume_on_same_returns [OF assms(1)] show ?thesis
    unfolding same by blast
qed

text \<open>
  The witness: an in-place update of A 1 to A 2 fails, the rollback uninstalls A 2, and
  the install of A 1 fails while the output holds the words; the rollback install is
  interrupted. Resumed from \<open>RollbackInstall\<close> with the same result and an output that
  holds the words in another text, the run writes \<open>Installed\<close> for A 1 as the
  uninterrupted run does.
\<close>

theorem resumed_run_same_outcome_witness:
  "(InstallCall (Some (pkg ''A'' ''1'')) (Some (pkg ''A'' ''2'')) True True,
      sconst (gives ResultStatusFailed 1 [] ''missing update script''))
     \<in> set (callTrace (selectedCall (Some (pkg ''A'' ''2'')) (Some (pkg ''A'' ''1'')) True
         Installed)
       (gives ResultStatusFailed 1 [] [] ##
        gives ResultStatusSuccess 0 [] ''missing update script'' ##
        sconst (gives ResultStatusFailed 1 [] ''missing update script'')))
   \<and> markerOf (InstallCall (Some (pkg ''A'' ''1'')) (Some (pkg ''A'' ''2'')) True True)
       = RollbackInstall
   \<and> smap result (sconst (gives ResultStatusFailed 1 [] ''install: missing update script''))
       = smap result (sconst (gives ResultStatusFailed 1 [] ''missing update script''))
   \<and> smap missingUpdateScript
         (sconst (gives ResultStatusFailed 1 [] ''install: missing update script''))
       = smap missingUpdateScript
         (sconst (gives ResultStatusFailed 1 [] ''missing update script''))
   \<and> lastWrite (executeConfigurePackage (Some (pkg ''A'' ''2'')) (Some (pkg ''A'' ''1'')) True
       RollbackInstall
       (sconst (gives ResultStatusFailed 1 [] ''install: missing update script'')))
       = Some (''A'', ''1'', Installed)
   \<and> lastWrite (executeConfigurePackage (Some (pkg ''A'' ''2'')) (Some (pkg ''A'' ''1'')) True
       Installed
       (gives ResultStatusFailed 1 [] [] ##
        gives ResultStatusSuccess 0 [] ''missing update script'' ##
        sconst (gives ResultStatusFailed 1 [] ''missing update script'')))
       = Some (''A'', ''1'', Installed)"
  using resumed_run_same_outcome [where
    c = "InstallCall (Some (pkg ''A'' ''1'')) (Some (pkg ''A'' ''2'')) True True"
    and rs' = "sconst (gives ResultStatusFailed 1 [] ''missing update script'')"
    and rs'' = "sconst (gives ResultStatusFailed 1 [] ''install: missing update script'')"
    and inst = "Some (pkg ''A'' ''2'')" and uninst = "Some (pkg ''A'' ''1'')"
    and isUpdateInPlace = True and st = Installed
    and rs = "gives ResultStatusFailed 1 [] [] ##
        gives ResultStatusSuccess 0 [] ''missing update script'' ##
        sconst (gives ResultStatusFailed 1 [] ''missing update script'')"]
  by (simp add: selectedCall_def run_simps read_simps callTrace.simps smap_sconst
      missingUpdateScript_def)

text \<open>
  Claim C2 as stated fails: the same results of the remaining invocations are not
  enough, because line 116 reads the standard error of the plugin output of the run.
  In the run of the witness, resumed from \<open>RollbackInstall\<close> with the same result of the
  install of A 1 and a fresh output that does not hold the words, the last state
  written is \<open>Failed\<close> for A 1, where the uninterrupted run leaves \<open>Installed\<close>.
\<close>

theorem fresh_output_changes_resumed_outcome:
  "(InstallCall (Some (pkg ''A'' ''1'')) (Some (pkg ''A'' ''2'')) True True,
      sconst (gives ResultStatusFailed 1 [] ''missing update script''))
     \<in> set (callTrace (selectedCall (Some (pkg ''A'' ''2'')) (Some (pkg ''A'' ''1'')) True
         Installed)
       (gives ResultStatusFailed 1 [] [] ##
        gives ResultStatusSuccess 0 [] ''missing update script'' ##
        sconst (gives ResultStatusFailed 1 [] ''missing update script'')))
   \<and> markerOf (InstallCall (Some (pkg ''A'' ''1'')) (Some (pkg ''A'' ''2'')) True True)
       = RollbackInstall
   \<and> smap result (sconst (gives ResultStatusFailed 1 [] []))
       = smap result (sconst (gives ResultStatusFailed 1 [] ''missing update script''))
   \<and> lastWrite (executeConfigurePackage (Some (pkg ''A'' ''2'')) (Some (pkg ''A'' ''1'')) True
       Installed
       (gives ResultStatusFailed 1 [] [] ##
        gives ResultStatusSuccess 0 [] ''missing update script'' ##
        sconst (gives ResultStatusFailed 1 [] ''missing update script'')))
       = Some (''A'', ''1'', Installed)
   \<and> lastWrite (executeConfigurePackage (Some (pkg ''A'' ''2'')) (Some (pkg ''A'' ''1'')) True
       RollbackInstall (sconst (gives ResultStatusFailed 1 [] [])))
       = Some (''A'', ''1'', Failed)"
  by (simp add: selectedCall_def run_simps read_simps callTrace.simps smap_sconst)

end
